theory Spec2Isabelle
  imports Complex_Main "HOL-Library.Log_Nat" "HOL-Library.Multiset" "HOL-Library.Sublist"
begin

section \<open>The language runtime, as far as the components use it\<close>

subsection \<open>Strings\<close>

text \<open>
  A string is the sequence of its code units; the model covers code units below 256
  (the Latin-1 range), which is what \<^typ>\<open>char\<close> holds. \<open>toLowerCase\<close> maps the upper-case
  letters of that range (A-Z, and U+00C0-U+00DE without the multiplication sign U+00D7)
  to the letter 32 code units further and leaves every other code unit alone.
\<close>

definition toLowerChar :: "char \<Rightarrow> char" where
  "toLowerChar c =
     (let n = (of_char c :: nat)
      in if (65 \<le> n \<and> n \<le> 90) \<or> (192 \<le> n \<and> n \<le> 214) \<or> (216 \<le> n \<and> n \<le> 222)
         then char_of (n + 32) else c)"

definition toLowerCase :: "string \<Rightarrow> string" where
  "toLowerCase s = map toLowerChar s"

text \<open>\<open>s.includes(t)\<close>: \<open>t\<close> occurs in \<open>s\<close> as a contiguous run of code units.\<close>

fun startsWith :: "string \<Rightarrow> string \<Rightarrow> bool" where
  "startsWith s [] = True"
| "startsWith [] (c # t) = False"
| "startsWith (a # s) (c # t) = (a = c \<and> startsWith s t)"

fun includes_s :: "string \<Rightarrow> string \<Rightarrow> bool" where
  "includes_s [] t = (t = [])"
| "includes_s (a # s) t = (startsWith (a # s) t \<or> includes_s s t)"

text \<open>\<open>s.substring(i, j)\<close> for \<open>i \<le> j\<close>: the code units at the indices \<open>i, \<dots>, j - 1\<close> that exist.\<close>

definition substring :: "string \<Rightarrow> nat \<Rightarrow> nat \<Rightarrow> string" where
  "substring s i j = take (j - i) (drop i s)"

subsection \<open>Numbers\<close>

text \<open>
  Numbers are IEEE 754 doubles. The model holds a finite double as the rational it
  denotes; \<open>fl\<close> rounds a rational to the nearest double (53 significant bits, ties to the
  even significand), which is what one division or multiplication of doubles returns for
  the exact quotient or product. Subnormal results and overflow are outside the model:
  the components compute with byte counts and percentages only.
\<close>

definition pow2 :: "int \<Rightarrow> rat" where
  "pow2 e = (if 0 \<le> e then 2 ^ nat e else 1 / 2 ^ nat (- e))"

definition ilog2 :: "rat \<Rightarrow> int" where
  "ilog2 q =
     (case quotient_of q of (a, b) \<Rightarrow>
        (let d = bitlen a - bitlen b in if pow2 d \<le> q then d else d - 1))"

definition round_half_even :: "rat \<Rightarrow> int" where
  "round_half_even q =
     (let n = \<lfloor>q\<rfloor>; r = q - of_int n
      in if r < 1 / 2 then n else if 1 / 2 < r then n + 1 else if even n then n else n + 1)"

definition fl :: "rat \<Rightarrow> rat" where
  "fl q =
     (if q = 0 then 0
      else (let s = pow2 (ilog2 \<bar>q\<bar> - 52)
            in sgn q * of_int (round_half_even (\<bar>q\<bar> / s)) * s))"

text \<open>\<open>Math.round\<close>: the nearest integer, a tie going to the larger one.\<close>

definition Math_round :: "rat \<Rightarrow> int" where
  "Math_round x = \<lfloor>x + 1 / 2\<rfloor>"

text \<open>The decimal digits of an integer, as \<open>String(n)\<close> writes them (below \<open>10^21\<close>).\<close>

definition digit_char :: "nat \<Rightarrow> char" where
  "digit_char d = ''0123456789'' ! d"

fun show_nat :: "nat \<Rightarrow> string" where
  "show_nat n = (if n < 10 then [digit_char n] else show_nat (n div 10) @ [digit_char (n mod 10)])"

declare show_nat.simps [simp del]

definition show_int :: "int \<Rightarrow> string" where
  "show_int i = (if i < 0 then CHR ''-'' # show_nat (nat (- i)) else show_nat (nat i))"

text \<open>
  \<open>x.toFixed(1)\<close> (below \<open>10^21\<close>): the sign, then the decimal with one fractional digit
  nearest to the magnitude of \<open>x\<close>, the larger one on a tie.
\<close>

definition toFixed1 :: "rat \<Rightarrow> string" where
  "toFixed1 x =
     (let n = nat \<lfloor>\<bar>x\<bar> * 10 + 1 / 2\<rfloor>
      in (if x < 0 then ''-'' else '''') @ show_nat (n div 10) @ ''.'' @ show_nat (n mod 10))"

subsection \<open>What the engine and the locale decide\<close>

text \<open>
  Four primitives are left to the engine or to the user's locale, and are parameters
  of the model: the text of a number that is not an integer (\<open>Number::toString\<close>, the
  shortest decimal that reads back as the same double), the text of a date, the
  collation order of \<open>localeCompare\<close> (negative, zero or positive), and the message of the
  \<open>TypeError\<close> thrown when a property, given by its name, is read of \<open>undefined\<close>.
\<close>

record runtime =
  frac_to_string :: "rat \<Rightarrow> string"
  date_to_string :: "int \<Rightarrow> string"
  localeCompare :: "string \<Rightarrow> string \<Rightarrow> int"
  undefined_read :: "string \<Rightarrow> string"

definition number_to_string :: "runtime \<Rightarrow> rat \<Rightarrow> string" where
  "number_to_string rt x =
     (if of_int \<lfloor>x\<rfloor> = x then show_int \<lfloor>x\<rfloor> else frac_to_string rt x)"

text \<open>
  A runtime to run the model on: a number that is not an integer is written with the
  digits of its decimal expansion (at most 24 of them after the point), a date as its
  instant in milliseconds, strings are ordered code unit by code unit, and the message
  for a read of \<open>undefined\<close> is the one V8 gives.
\<close>

fun frac_digits :: "nat \<Rightarrow> rat \<Rightarrow> string" where
  "frac_digits 0 r = []"
| "frac_digits (Suc k) r =
     (if r = 0 then []
      else (let d = \<lfloor>r * 10\<rfloor> in digit_char (nat d) # frac_digits k (r * 10 - of_int d)))"

definition decimal_expansion :: "rat \<Rightarrow> string" where
  "decimal_expansion x =
     (if x < 0 then ''-'' else '''') @ show_int \<lfloor>\<bar>x\<bar>\<rfloor> @ ''.''
       @ frac_digits 24 (\<bar>x\<bar> - of_int \<lfloor>\<bar>x\<bar>\<rfloor>)"

fun code_unit_compare :: "string \<Rightarrow> string \<Rightarrow> int" where
  "code_unit_compare [] [] = 0"
| "code_unit_compare [] (c # t) = - 1"
| "code_unit_compare (a # s) [] = 1"
| "code_unit_compare (a # s) (c # t) =
     (if (of_char a :: nat) < of_char c then - 1
      else if (of_char c :: nat) < of_char a then 1
      else code_unit_compare s t)"

definition v8_undefined_read :: "string \<Rightarrow> string" where
  "v8_undefined_read p =
     ''Cannot read properties of undefined (reading '' @ [CHR 0x27] @ p @ [CHR 0x27] @ '')''"

definition plain_runtime :: runtime where
  "plain_runtime =
     \<lparr>frac_to_string = decimal_expansion, date_to_string = show_int,
      localeCompare = code_unit_compare, undefined_read = v8_undefined_read\<rparr>"

section \<open>The data model (\<open>types/index.ts\<close>)\<close>

datatype status = Pending | Uploading | Completed | Error

text \<open>The status is the string itself in the source.\<close>

fun status_string :: "status \<Rightarrow> string" where
  "status_string Pending = ''pending''"
| "status_string Uploading = ''uploading''"
| "status_string Completed = ''completed''"
| "status_string Error = ''error''"

text \<open>
  \<open>UploadFile\<close>. A size, a progress and an instant (\<open>uploadedAt\<close>, in milliseconds) are
  integers, which a double holds exactly below \<open>2^53\<close>; an optional field is absent as
  \<open>None\<close>.
\<close>

record UploadFile =
  id_u :: string
  name_u :: string
  size_u :: int
  type_u :: string
  uploadedAt :: int
  s3Key :: "string option"
  status :: status
  progress :: "int option"
  error :: "string option"

record S3UploadConfig =
  presignedUrlEndpoint :: string
  bucket :: "string option"
  maxFileSize :: "int option"
  allowedTypes :: "string list option"

record TableColumn =
  key :: string
  label :: string
  sortable :: "bool option"
  filterable :: "bool option"
  width :: "string option"

text \<open>The browser's \<open>File\<close>: what the uploader reads of it.\<close>

record File =
  name_f :: string
  size_f :: int
  type_f :: string

section \<open>The uploader (\<open>components/S3DragDropUpload.vue\<close>)\<close>

subsection \<open>What the uploader does to its surroundings, and what they answer\<close>

text \<open>
  A thrown value, or the reason of a rejected promise: an \<open>Error\<close> object with its
  message, or anything else.
\<close>

datatype thrown = ErrorObj string | NonError

text \<open>
  The presign request: \<open>fetch\<close> rejects, or resolves to a response with its \<open>ok\<close> flag whose
  \<open>json()\<close> either throws or yields an object, of which the code reads \<open>uploadUrl\<close> and \<open>key\<close>
  (absent as \<open>None\<close>).
\<close>

datatype json_result = JsonThrew thrown | JsonBody "string option" "string option"

datatype presign_outcome = FetchRejected thrown | Response bool json_result

text \<open>
  The transfer. A progress event carries \<open>loaded\<close> and \<open>total\<close>; \<open>XMLHttpRequest\<close> sets its
  \<open>lengthComputable\<close> exactly when the total is not zero. The request ends with \<open>load\<close>
  (and a status) or with \<open>error\<close>; the code sets no timeout and never aborts. Setting the
  request up (\<open>open\<close>, \<open>setRequestHeader\<close>, \<open>send\<close>) may throw instead.
\<close>

datatype ProgressEvent = ProgressEvent (loaded: nat) (total: nat)

definition lengthComputable :: "ProgressEvent \<Rightarrow> bool" where
  "lengthComputable e = (total e \<noteq> 0)"

datatype xhr_end = Load nat | NetError

datatype transfer_outcome = XhrThrew thrown | XhrRun "ProgressEvent list" xhr_end

text \<open>
  What the surroundings hold for one index of a selection: the text of
  \<open>Math.random().toString(36)\<close>, the clock, the fate of the two requests, each of which
  is taken to end, and what the selection holds at that index later on. The selection
  is a \<open>FileList\<close>, a live object of the browser: once \<open>handleFiles\<close> has suspended for the
  first time its caller runs on, and what \<open>files[i]\<close> reads from then on (\<open>listed\<close>, with
  \<open>None\<close> for \<open>undefined\<close>) is for the caller and the browser to decide.
\<close>

record world =
  random36 :: string
  now :: int
  presign :: presign_outcome
  transfer :: transfer_outcome
  listed :: "File option"

record presign_body =
  fileName :: string
  fileType :: string
  fileSize :: int

text \<open>
  The observable effects, in the order they happen: the five notifications, each with
  the record as it is at that moment, and the two requests.
\<close>

datatype effect =
    Emit_upload_start UploadFile
  | Emit_upload_progress UploadFile
  | Emit_upload_complete UploadFile
  | Emit_upload_error UploadFile thrown
  | Emit_files_selected "UploadFile list"
  | Fetch_POST string presign_body
  | Xhr_PUT string string File

subsection \<open>\<open>maxSizeMB\<close>, \<open>generateId\<close>, \<open>createUploadFile\<close>, \<open>validateFile\<close>\<close>

definition maxSizeMB :: "S3UploadConfig \<Rightarrow> rat" where
  "maxSizeMB config =
     (case maxFileSize config of
        None \<Rightarrow> 100
      | Some m \<Rightarrow> if m = 0 then 100 else fl (of_int m / (1024 * 1024)))"

definition generateId :: "string \<Rightarrow> string" where
  "generateId r36 = substring r36 2 11"

definition createUploadFile :: "world \<Rightarrow> File \<Rightarrow> UploadFile" where
  "createUploadFile w file =
     \<lparr>id_u = generateId (random36 w), name_u = name_f file, size_u = size_f file,
      type_u = type_f file, uploadedAt = now w, s3Key = None, status = Pending,
      progress = Some 0, error = None\<rparr>"

definition validateFile :: "runtime \<Rightarrow> S3UploadConfig \<Rightarrow> File \<Rightarrow> string option" where
  "validateFile rt config file =
     (if (case maxFileSize config of None \<Rightarrow> False | Some m \<Rightarrow> m \<noteq> 0 \<and> m < size_f file)
      then Some (''File exceeds maximum size of '' @ number_to_string rt (maxSizeMB config) @ ''MB'')
      else if (case allowedTypes config of
                 None \<Rightarrow> False
               | Some ts \<Rightarrow> length ts \<noteq> 0 \<and> type_f file \<notin> set ts)
      then Some (''File type '' @ type_f file @ '' is not allowed'')
      else None)"

subsection \<open>\<open>uploadToS3\<close>\<close>

text \<open>The \<open>catch\<close> block, entered with the record and the effects so far.\<close>

definition catch_block :: "thrown \<Rightarrow> UploadFile \<Rightarrow> effect list \<Rightarrow> UploadFile \<times> effect list" where
  "catch_block err u tr =
     (let u' = u\<lparr>status := Error,
                 error := Some (case err of ErrorObj m \<Rightarrow> m | NonError \<Rightarrow> ''Upload failed'')\<rparr>
      in (u', tr @ [Emit_upload_error u'
                      (case err of ErrorObj m \<Rightarrow> ErrorObj m | NonError \<Rightarrow> ErrorObj ''Upload failed'')]))"

text \<open>The progress listener, run on the events of one transfer in their order.\<close>

definition percent :: "ProgressEvent \<Rightarrow> int" where
  "percent e = Math_round (fl (fl (of_nat (loaded e) / of_nat (total e)) * 100))"

fun on_progress :: "ProgressEvent list \<Rightarrow> UploadFile \<Rightarrow> UploadFile \<times> effect list" where
  "on_progress [] u = (u, [])"
| "on_progress (e # es) u =
     (if lengthComputable e
      then (let u' = u\<lparr>progress := Some (percent e)\<rparr>;
                (u'', tr) = on_progress es u'
            in (u'', Emit_upload_progress u' # tr))
      else on_progress es u)"

definition url_string :: "string option \<Rightarrow> string" where
  "url_string v = (case v of None \<Rightarrow> ''undefined'' | Some s \<Rightarrow> s)"

definition uploadToS3 :: "S3UploadConfig \<Rightarrow> world \<Rightarrow> File \<Rightarrow> UploadFile \<Rightarrow> UploadFile \<times> effect list" where
  "uploadToS3 config w file uploadFile =
     (let u1 = uploadFile\<lparr>status := Uploading\<rparr>;
          t1 = [Emit_upload_start u1,
                Fetch_POST (presignedUrlEndpoint config)
                  \<lparr>fileName = name_f file, fileType = type_f file, fileSize = size_f file\<rparr>]
      in case presign w of
           FetchRejected err \<Rightarrow> catch_block err u1 t1
         | Response ok body \<Rightarrow>
             if \<not> ok then catch_block (ErrorObj ''Failed to get presigned URL'') u1 t1
             else (case body of
                     JsonThrew err \<Rightarrow> catch_block err u1 t1
                   | JsonBody uploadUrl k \<Rightarrow>
                       (let u2 = u1\<lparr>s3Key := k\<rparr>
                        in case transfer w of
                             XhrThrew err \<Rightarrow> catch_block err u2 t1
                           | XhrRun events fin \<Rightarrow>
                               (let t2 = t1 @ [Xhr_PUT (url_string uploadUrl) (type_f file) file];
                                    (u3, tp) = on_progress events u2;
                                    t3 = t2 @ tp
                                in case fin of
                                     Load st \<Rightarrow>
                                       if 200 \<le> st \<and> st < 300
                                       then (let u4 = u3\<lparr>status := Completed, progress := Some 100\<rparr>
                                             in (u4, t3 @ [Emit_upload_complete u4]))
                                       else catch_block
                                              (ErrorObj (''Upload failed with status '' @ show_nat st))
                                              u3 t3
                                   | NetError \<Rightarrow> catch_block (ErrorObj ''Upload failed'') u3 t3))))"

subsection \<open>\<open>handleFiles\<close>\<close>

text \<open>
  The first loop: one record per file, in the order of the selection, an invalid file's
  record marked at once (\<open>create_step\<close> is the body of the loop). A message counts when
  it is a non-empty string.
\<close>

definition create_step :: "runtime \<Rightarrow> S3UploadConfig \<Rightarrow> world \<Rightarrow> File \<Rightarrow> UploadFile" where
  "create_step rt config w file =
     (let uploadFile = createUploadFile w file;
          validationError = validateFile rt config file
      in case validationError of
           None \<Rightarrow> uploadFile
         | Some msg \<Rightarrow>
             if msg = [] then uploadFile
             else uploadFile\<lparr>status := Error, error := Some msg\<rparr>)"

fun create_loop :: "runtime \<Rightarrow> S3UploadConfig \<Rightarrow> (nat \<Rightarrow> world) \<Rightarrow> nat \<Rightarrow> File list \<Rightarrow> UploadFile list" where
  "create_loop rt config env i [] = []"
| "create_loop rt config env i (file # files) =
     create_step rt config (env i) file # create_loop rt config env (Suc i) files"

text \<open>\<open>files[i]\<close>: the element at the index, \<open>undefined\<close> beyond the end.\<close>

definition index_read :: "'a list \<Rightarrow> nat \<Rightarrow> 'a option" where
  "index_read xs i = (if i < length xs then Some (xs ! i) else None)"

text \<open>
  The call \<open>uploadToS3(files[i], uploadFiles[i])\<close>. The signature promises a \<open>File\<close>, the
  index read may give \<open>undefined\<close>. Then the body sets the status and emits
  \<open>upload-start\<close> as ever, and the first read of the file, \<open>file.name\<close> in the argument of
  \<open>fetch\<close>, throws a \<open>TypeError\<close> inside the \<open>try\<close>: no request is made and the \<open>catch\<close>
  block runs.
\<close>

definition uploadToS3_call :: "runtime \<Rightarrow> S3UploadConfig \<Rightarrow> world \<Rightarrow> File option \<Rightarrow> UploadFile
    \<Rightarrow> UploadFile \<times> effect list" where
  "uploadToS3_call rt config w f uploadFile =
     (case f of
        Some file \<Rightarrow> uploadToS3 config w file uploadFile
      | None \<Rightarrow>
          (let u1 = uploadFile\<lparr>status := Uploading\<rparr>
           in catch_block (ErrorObj (undefined_read rt ''name'')) u1 [Emit_upload_start u1]))"

text \<open>
  The second loop: index by index, a record that is not in error is uploaded, and the
  next index is reached only when that upload has returned. The first loop went over a
  copy of the selection (\<open>Array.from(files)\<close>); this one reads \<open>files[i]\<close> from the selection
  itself, at the moment the index is reached: before the first \<open>await\<close> the selection is
  as it was given (\<open>fs\<close>), after it the read gives what the world holds (\<open>listed\<close>). The flag
  says whether an \<open>await\<close> has been passed.
\<close>

fun upload_loop :: "runtime \<Rightarrow> S3UploadConfig \<Rightarrow> (nat \<Rightarrow> world) \<Rightarrow> File list \<Rightarrow> bool \<Rightarrow> nat
    \<Rightarrow> UploadFile list \<Rightarrow> UploadFile list \<times> effect list" where
  "upload_loop rt config env fs awaited i [] = ([], [])"
| "upload_loop rt config env fs awaited i (uploadFile # rest) =
     (if status uploadFile \<noteq> Error
      then (let f = (if awaited then listed (env i) else index_read fs i);
                (u, tr) = uploadToS3_call rt config (env i) f uploadFile;
                (us, trs) = upload_loop rt config env fs True (Suc i) rest
            in (u # us, tr @ trs))
      else (let (us, trs) = upload_loop rt config env fs awaited (Suc i) rest
            in (uploadFile # us, trs)))"

text \<open>
  \<open>handleFiles\<close> returns nothing; the model returns the records as they are in the end
  and the effects in their order. \<open>env i\<close> is what the surroundings hold for the index
  \<open>i\<close>.
\<close>

definition handleFiles :: "runtime \<Rightarrow> S3UploadConfig \<Rightarrow> (nat \<Rightarrow> world) \<Rightarrow> File list option
    \<Rightarrow> UploadFile list \<times> effect list" where
  "handleFiles rt config env files =
     (case files of
        None \<Rightarrow> ([], [])
      | Some fs \<Rightarrow>
          if length fs = 0 then ([], [])
          else (let uploadFiles = create_loop rt config env 0 fs;
                    (final, tr) = upload_loop rt config env fs False 0 uploadFiles
                in (final, Emit_files_selected uploadFiles # tr)))"

subsection \<open>\<open>handleDrop\<close> and \<open>handleInputChange\<close>\<close>

text \<open>
  The two callers. Neither awaits \<open>handleFiles\<close>. \<open>handleDrop\<close> hands over the files of the
  drop and leaves them alone. \<open>handleInputChange\<close> hands over the files of the input and
  then sets the input's value to the empty string, which empties the selection that
  \<open>handleFiles\<close> still reads: every later read of \<open>files[i]\<close> gives \<open>undefined\<close>.
\<close>

definition handleDrop :: "runtime \<Rightarrow> S3UploadConfig \<Rightarrow> (nat \<Rightarrow> world) \<Rightarrow> File list option
    \<Rightarrow> UploadFile list \<times> effect list" where
  "handleDrop rt config env files = handleFiles rt config env files"

definition handleInputChange :: "runtime \<Rightarrow> S3UploadConfig \<Rightarrow> (nat \<Rightarrow> world) \<Rightarrow> File list option
    \<Rightarrow> UploadFile list \<times> effect list" where
  "handleInputChange rt config env files =
     handleFiles rt config (\<lambda>i. (env i)\<lparr>listed := None\<rparr>) files"

section \<open>The table (\<open>components/UploadsTable.vue\<close>)\<close>

record TableProps =
  uploads :: "UploadFile list"
  columns :: "TableColumn list option"

datatype direction = Asc | Desc

record TableState =
  filterText :: string
  sortKey :: string
  sortDirection :: direction

text \<open>
  \<open>upload[key]\<close>: the value of a field, as a date, a number, a string, or \<open>undefined\<close> for
  an absent field and for a key that names no field of the record. (A key that names a
  property every object inherits reads the same value on every record; the comparison
  then answers zero, as it does for \<open>undefined\<close> on both sides.)
\<close>

datatype val = VDate int | VNum int | VStr string | VUndefined

definition field :: "string \<Rightarrow> UploadFile \<Rightarrow> val" where
  "field k u =
     (if k = ''id'' then VStr (id_u u)
      else if k = ''name'' then VStr (name_u u)
      else if k = ''size'' then VNum (size_u u)
      else if k = ''type'' then VStr (type_u u)
      else if k = ''uploadedAt'' then VDate (uploadedAt u)
      else if k = ''s3Key'' then (case s3Key u of None \<Rightarrow> VUndefined | Some s \<Rightarrow> VStr s)
      else if k = ''status'' then VStr (status_string (status u))
      else if k = ''progress'' then (case progress u of None \<Rightarrow> VUndefined | Some n \<Rightarrow> VNum n)
      else if k = ''error'' then (case error u of None \<Rightarrow> VUndefined | Some s \<Rightarrow> VStr s)
      else VUndefined)"

text \<open>
  \<open>a === b\<close>. Two dates are objects, and strictly equal only as one and the same object,
  which the model does not tell apart from an equal date: it answers \<open>False\<close>, and the
  branch for dates then gives the difference \<open>0\<close> that the source returns for one object.
\<close>

fun strict_eq :: "val \<Rightarrow> val \<Rightarrow> bool" where
  "strict_eq (VNum a) (VNum b) = (a = b)"
| "strict_eq (VStr a) (VStr b) = (a = b)"
| "strict_eq VUndefined VUndefined = True"
| "strict_eq a b = False"

fun String_v :: "runtime \<Rightarrow> val \<Rightarrow> string" where
  "String_v rt (VStr s) = s"
| "String_v rt (VNum n) = number_to_string rt (of_int n)"
| "String_v rt (VDate t) = date_to_string rt t"
| "String_v rt VUndefined = ''undefined''"

text \<open>The comparison function given to \<open>sort\<close>.\<close>

definition compare_uploads :: "runtime \<Rightarrow> string \<Rightarrow> direction \<Rightarrow> UploadFile \<Rightarrow> UploadFile \<Rightarrow> int" where
  "compare_uploads rt k dir a b =
     (let aVal = field k a; bVal = field k b
      in if strict_eq aVal bVal then 0
         else (let comparison =
                     (case (aVal, bVal) of
                        (VDate x, VDate y) \<Rightarrow> x - y
                      | (VNum x, VNum y) \<Rightarrow> x - y
                      | _ \<Rightarrow> localeCompare rt (String_v rt aVal) (String_v rt bVal))
               in if dir = Asc then comparison else - comparison))"

text \<open>
  \<open>Array.prototype.sort\<close> with a comparison function is a stable sort. The model inserts
  each element, from the last to the first, in front of the first element of the sorted
  rest that it does not come after. For a comparison function that is total and
  transitive the result is in order (\<open>Array_sort_sorted\<close> below).
\<close>

fun insert_sorted :: "('a \<Rightarrow> 'a \<Rightarrow> int) \<Rightarrow> 'a \<Rightarrow> 'a list \<Rightarrow> 'a list" where
  "insert_sorted cmp x [] = [x]"
| "insert_sorted cmp x (y # ys) =
     (if cmp x y \<le> 0 then x # y # ys else y # insert_sorted cmp x ys)"

fun Array_sort :: "('a \<Rightarrow> 'a \<Rightarrow> int) \<Rightarrow> 'a list \<Rightarrow> 'a list" where
  "Array_sort cmp [] = []"
| "Array_sort cmp (x # xs) = insert_sorted cmp x (Array_sort cmp xs)"

definition matches :: "string \<Rightarrow> UploadFile \<Rightarrow> bool" where
  "matches search upload =
     (includes_s (toLowerCase (name_u upload)) search
      \<or> includes_s (toLowerCase (type_u upload)) search
      \<or> includes_s (toLowerCase (status_string (status upload))) search)"

definition filteredAndSortedUploads :: "runtime \<Rightarrow> TableProps \<Rightarrow> TableState \<Rightarrow> UploadFile list" where
  "filteredAndSortedUploads rt props st =
     (let result = uploads props;
          result = (if filterText st \<noteq> []
                    then filter (matches (toLowerCase (filterText st))) result
                    else result)
      in Array_sort (compare_uploads rt (sortKey st) (sortDirection st)) result)"

definition handleSort :: "string \<Rightarrow> TableState \<Rightarrow> TableState" where
  "handleSort k st =
     (if sortKey st = k
      then st\<lparr>sortDirection := (if sortDirection st = Asc then Desc else Asc)\<rparr>
      else st\<lparr>sortKey := k, sortDirection := Asc\<rparr>)"

definition formatSize :: "runtime \<Rightarrow> int \<Rightarrow> string" where
  "formatSize rt bytes =
     (if bytes < 1024 then number_to_string rt (of_int bytes) @ '' B''
      else if bytes < 1024 * 1024 then toFixed1 (fl (of_int bytes / 1024)) @ '' KB''
      else toFixed1 (fl (of_int bytes / (1024 * 1024))) @ '' MB'')"

section \<open>Observations on a run, and inputs to run the model on\<close>

subsection \<open>Observations\<close>

text \<open>A transfer fails when setting it up throws, on a network error, or on a status outside 2xx.\<close>

fun transfer_failed :: "transfer_outcome \<Rightarrow> bool" where
  "transfer_failed (XhrThrew err) = True"
| "transfer_failed (XhrRun events NetError) = True"
| "transfer_failed (XhrRun events (Load st)) = (\<not> (200 \<le> st \<and> st < 300))"

fun progress_events :: "transfer_outcome \<Rightarrow> ProgressEvent list" where
  "progress_events (XhrThrew err) = []"
| "progress_events (XhrRun events fin) = events"

text \<open>
  The progress a record shows while it is uploading: the values of \<open>progress\<close> in the
  successive notifications about the record that carry the status \<open>uploading\<close>.
\<close>

fun notified :: "effect \<Rightarrow> UploadFile list" where
  "notified (Emit_upload_start u) = [u]"
| "notified (Emit_upload_progress u) = [u]"
| "notified (Emit_upload_complete u) = [u]"
| "notified (Emit_upload_error u err) = [u]"
| "notified e = []"

fun progress_values :: "UploadFile list \<Rightarrow> int list" where
  "progress_values [] = []"
| "progress_values (u # us) =
     (case progress u of None \<Rightarrow> progress_values us | Some p \<Rightarrow> p # progress_values us)"

definition uploading_progress :: "effect list \<Rightarrow> int list" where
  "uploading_progress tr =
     progress_values (filter (\<lambda>u. status u = Uploading) (concat (map notified tr)))"

text \<open>The requests among the effects.\<close>

fun is_request :: "effect \<Rightarrow> bool" where
  "is_request (Fetch_POST endpoint body) = True"
| "is_request (Xhr_PUT url ty file) = True"
| "is_request e = False"

text \<open>
  What the locale's collation is taken to satisfy: comparing equal is reflexive,
  symmetric and transitive, and the digits of a number never compare equal to the text
  \<open>undefined\<close>.
\<close>

definition collation :: "runtime \<Rightarrow> bool" where
  "collation rt \<longleftrightarrow>
     (\<forall>s. localeCompare rt s s = 0)
     \<and> (\<forall>s t. localeCompare rt s t = 0 \<longrightarrow> localeCompare rt t s = 0)
     \<and> (\<forall>s t u. localeCompare rt s t = 0 \<and> localeCompare rt t u = 0 \<longrightarrow> localeCompare rt s u = 0)
     \<and> (\<forall>n. localeCompare rt (show_int n) ''undefined'' \<noteq> 0)"

text \<open>
  Two values of one field are of the same kind: both dates, or neither a date and not a
  number against a string. Values of strings and absent values are compared as strings.
\<close>

fun same_kind :: "val \<Rightarrow> val \<Rightarrow> bool" where
  "same_kind (VDate x) (VDate y) = True"
| "same_kind (VDate x) w = False"
| "same_kind v (VDate y) = False"
| "same_kind (VNum x) (VStr t) = False"
| "same_kind (VStr s) (VNum y) = False"
| "same_kind v w = True"

fun stringy :: "val \<Rightarrow> bool" where
  "stringy (VStr s) = True"
| "stringy VUndefined = True"
| "stringy v = False"

text \<open>When the comparison function answers zero, whatever the direction.\<close>

definition equal_vals :: "runtime \<Rightarrow> val \<Rightarrow> val \<Rightarrow> bool" where
  "equal_vals rt v w \<longleftrightarrow>
     strict_eq v w
     \<or> (case (v, w) of
           (VDate x, VDate y) \<Rightarrow> x - y
         | (VNum x, VNum y) \<Rightarrow> x - y
         | _ \<Rightarrow> localeCompare rt (String_v rt v) (String_v rt w)) = 0"

subsection \<open>Inputs\<close>

definition example_config :: S3UploadConfig where
  "example_config =
     \<lparr>presignedUrlEndpoint = ''/api/presign'', bucket = None,
      maxFileSize = Some (10 * 1024 * 1024), allowedTypes = Some [''image/png'', ''text/plain'']\<rparr>"

definition zero_limit_config :: S3UploadConfig where
  "zero_limit_config = example_config\<lparr>maxFileSize := Some 0\<rparr>"

definition small_file :: File where
  "small_file = \<lparr>name_f = ''a.png'', size_f = 2048, type_f = ''image/png''\<rparr>"

definition big_file :: File where
  "big_file = \<lparr>name_f = ''movie.png'', size_f = 50 * 1024 * 1024, type_f = ''image/png''\<rparr>"

definition pdf_file :: File where
  "pdf_file = \<lparr>name_f = ''b.pdf'', size_f = 2048, type_f = ''application/pdf''\<rparr>"

text \<open>A world where both requests succeed, and worlds that differ from it in one respect.\<close>

definition ok_world :: world where
  "ok_world =
     \<lparr>random36 = ''0.4fzyo82mvyr'', now = 1700000000000,
      presign = Response True (JsonBody (Some ''https://bucket.example/put'') (Some ''uploads/a.png'')),
      transfer = XhrRun [ProgressEvent 1024 2048, ProgressEvent 2048 2048] (Load 200),
      listed = Some small_file\<rparr>"

definition rejected_world :: world where
  "rejected_world = ok_world\<lparr>transfer := XhrRun [ProgressEvent 2048 2048] (Load 403)\<rparr>"

definition regress_world :: world where
  "regress_world =
     ok_world\<lparr>transfer := XhrRun [ProgressEvent 1024 2048, ProgressEvent 512 2048] (Load 200)\<rparr>"

definition half_world :: world where
  "half_world = ok_world\<lparr>random36 := ''0.i''\<rparr>"

definition twin_world :: world where
  "twin_world = ok_world\<lparr>random36 := ''0.4fzyo82mv0k'', now := 1700000000001\<rparr>"

text \<open>
  A batch of three files, the transfer of the second one rejected; in \<open>batch_env\<close> the
  selection keeps its files.
\<close>

definition batch_files :: "File list" where
  "batch_files =
     [\<lparr>name_f = ''a.png'', size_f = 2048, type_f = ''image/png''\<rparr>,
      \<lparr>name_f = ''b.png'', size_f = 2048, type_f = ''image/png''\<rparr>,
      \<lparr>name_f = ''c.png'', size_f = 2048, type_f = ''image/png''\<rparr>]"

definition batch_env :: "nat \<Rightarrow> world" where
  "batch_env i =
     (if i = 1 then rejected_world else ok_world)\<lparr>listed := index_read batch_files i\<rparr>"

text \<open>Records for the table.\<close>

definition a_png :: UploadFile where
  "a_png =
     \<lparr>id_u = ''4fzyo82mv'', name_u = ''a.png'', size_u = 2048, type_u = ''image/png'',
      uploadedAt = 1700000000000, s3Key = Some ''uploads/a.png'', status = Completed,
      progress = Some 100, error = None\<rparr>"

definition b_txt :: UploadFile where
  "b_txt =
     \<lparr>id_u = ''k3x9q0c1z'', name_u = ''b.txt'', size_u = 512, type_u = ''text/plain'',
      uploadedAt = 1700000000500, s3Key = None, status = Pending,
      progress = Some 0, error = None\<rparr>"

definition c_PNG :: UploadFile where
  "c_PNG =
     \<lparr>id_u = ''z81hd72ka'', name_u = ''C.PNG'', size_u = 4096, type_u = ''image/x-png'',
      uploadedAt = 1700000000900, s3Key = Some ''uploads/C.PNG'', status = Completed,
      progress = Some 100, error = None\<rparr>"

definition table_props :: TableProps where
  "table_props = \<lparr>uploads = [a_png, b_txt], columns = None\<rparr>"

definition png_filter :: TableState where
  "png_filter = \<lparr>filterText = ''png'', sortKey = ''uploadedAt'', sortDirection = Desc\<rparr>"

definition status_filter :: TableState where
  "status_filter = \<lparr>filterText = '''', sortKey = ''status'', sortDirection = Asc\<rparr>"

definition three_props :: TableProps where
  "three_props = \<lparr>uploads = [a_png, b_txt, c_PNG], columns = None\<rparr>"

section \<open>Facts about the number model\<close>

text \<open>
  Rounding to a double is exact on an integer below \<open>2^53\<close> scaled by a power of two, it
  keeps the order of non-negative numbers, and so does the percentage of a progress
  event in the loaded count.
\<close>

lemma pow2_powi: "pow2 e = 2 powi e"
  by (simp add: pow2_def power_int_def field_simps)

lemma pow2_pos: "0 < pow2 e"
  by (simp add: pow2_powi)

lemma pow2_add: "pow2 (a + b) = pow2 a * pow2 b"
  by (simp add: pow2_powi power_int_add)

lemma pow2_diff: "pow2 (a - b) = pow2 a / pow2 b"
  by (simp add: pow2_powi power_int_diff)

lemma pow2_mono: "a \<le> b \<Longrightarrow> pow2 a \<le> pow2 b"
  by (simp add: pow2_powi power_int_increasing)

lemma pow2_strict_mono: "a < b \<Longrightarrow> pow2 a < pow2 b"
  by (simp add: pow2_powi power_int_strict_increasing)

lemma pow2_nat: "pow2 (int n) = 2 ^ n"
  by (simp add: pow2_def)

lemma pow2_le_iff: "pow2 a \<le> pow2 b \<longleftrightarrow> a \<le> b"
  using pow2_mono pow2_strict_mono by (metis linorder_not_less)

lemma pow2_less_iff: "pow2 a < pow2 b \<longleftrightarrow> a < b"
  using pow2_mono pow2_strict_mono by (metis linorder_not_less)

lemma bitlen_pow2_bounds:
  assumes "0 < a"
  shows "pow2 (bitlen a - 1) \<le> of_int a" and "of_int a < pow2 (bitlen a)"
proof -
  have b: "2 ^ nat (bitlen a - 1) \<le> a \<and> a < 2 ^ nat (bitlen a)"
    using bitlen_bounds [OF assms] .
  have ge1: "1 \<le> bitlen a"
    using assms bitlen_eq_zero_iff [of a] bitlen_nonneg [of a] by linarith
  have "pow2 (bitlen a - 1) = of_int (2 ^ nat (bitlen a - 1))"
    using ge1 by (simp add: pow2_def)
  also have "\<dots> \<le> of_int a"
    using b by (simp only: of_int_le_iff)
  finally show "pow2 (bitlen a - 1) \<le> of_int a" .
  have "(of_int a :: rat) < of_int (2 ^ nat (bitlen a))"
    using b by (simp only: of_int_less_iff)
  also have "\<dots> = pow2 (bitlen a)"
    using ge1 by (simp add: pow2_def)
  finally show "of_int a < pow2 (bitlen a)" .
qed

lemma ilog2_bounds:
  assumes "0 < q"
  shows "pow2 (ilog2 q) \<le> q \<and> q < pow2 (ilog2 q + 1)"
proof -
  obtain a b where ab: "quotient_of q = (a, b)"
    by (cases "quotient_of q")
  have bpos: "0 < b"
    using ab quotient_of_denom_pos by blast
  have q: "q = of_int a / of_int b"
    using ab quotient_of_div by blast
  have apos: "0 < a"
    using assms bpos q by (simp add: zero_less_divide_iff)
  define d where "d = bitlen a - bitlen b"
  have qlt: "q < pow2 (d + 1)"
  proof -
    have "of_int a < pow2 (bitlen a)"
      using bitlen_pow2_bounds(2) [OF apos] .
    moreover have "pow2 (bitlen b - 1) \<le> of_int b"
      using bitlen_pow2_bounds(1) [OF bpos] .
    ultimately have "of_int a * pow2 (bitlen b - 1) < pow2 (bitlen a) * of_int b"
      using apos bpos pow2_pos [of "bitlen b - 1"]
      by (meson mult_less_le_imp_less of_int_0_le_iff less_imp_le)
    then have "q < pow2 (bitlen a) / pow2 (bitlen b - 1)"
      using bpos pow2_pos [of "bitlen b - 1"] by (simp add: q field_simps)
    also have "\<dots> = pow2 (d + 1)"
      by (simp add: d_def pow2_diff [symmetric] algebra_simps)
    finally show ?thesis .
  qed
  have qge: "pow2 (d - 1) \<le> q"
  proof -
    have "pow2 (bitlen a - 1) \<le> of_int a"
      using bitlen_pow2_bounds(1) [OF apos] .
    moreover have "of_int b < pow2 (bitlen b)"
      using bitlen_pow2_bounds(2) [OF bpos] .
    ultimately have "pow2 (bitlen a - 1) * of_int b \<le> of_int a * pow2 (bitlen b)"
      using apos bpos pow2_pos [of "bitlen a - 1"]
      by (meson mult_mono less_imp_le of_int_0_le_iff order_trans)
    then have "pow2 (bitlen a - 1) / pow2 (bitlen b) \<le> q"
      using bpos pow2_pos [of "bitlen b"] by (simp add: q field_simps)
    moreover have "pow2 (bitlen a - 1) / pow2 (bitlen b) = pow2 (d - 1)"
      by (simp add: d_def pow2_diff [symmetric] algebra_simps)
    ultimately show ?thesis by simp
  qed
  have il: "ilog2 q = (if pow2 d \<le> q then d else d - 1)"
    by (simp add: ilog2_def ab d_def Let_def)
  show ?thesis
  proof (cases "pow2 d \<le> q")
    case True
    then show ?thesis using il qlt by simp
  next
    case False
    then show ?thesis using il qge by simp
  qed
qed

lemma ilog2_unique:
  assumes "pow2 e \<le> q" and "q < pow2 (e + 1)"
  shows "ilog2 q = e"
proof -
  have qpos: "0 < q"
    using assms(1) pow2_pos [of e] by linarith
  have b: "pow2 (ilog2 q) \<le> q \<and> q < pow2 (ilog2 q + 1)"
    using ilog2_bounds [OF qpos] .
  have "pow2 e < pow2 (ilog2 q + 1)"
    using assms(1) b by linarith
  then have 1: "e < ilog2 q + 1"
    by (simp only: pow2_less_iff)
  have "pow2 (ilog2 q) < pow2 (e + 1)"
    using assms(2) b by linarith
  then have 2: "ilog2 q < e + 1"
    by (simp only: pow2_less_iff)
  show ?thesis using 1 2 by simp
qed

lemma round_half_even_of_int: "round_half_even (of_int n) = n"
  by (simp add: round_half_even_def)


lemma round_half_even_mono:
  assumes "a \<le> b"
  shows "round_half_even a \<le> round_half_even b"
proof -
  have fa: "of_int \<lfloor>a\<rfloor> \<le> a" "a < of_int \<lfloor>a\<rfloor> + 1" by linarith+
  have fb: "of_int \<lfloor>b\<rfloor> \<le> b" "b < of_int \<lfloor>b\<rfloor> + 1" by linarith+
  have le: "\<lfloor>a\<rfloor> \<le> \<lfloor>b\<rfloor>" using assms by (rule floor_mono)
  have ra: "\<lfloor>a\<rfloor> \<le> round_half_even a" "round_half_even a \<le> \<lfloor>a\<rfloor> + 1"
    by (simp_all add: round_half_even_def Let_def)
  have rb: "\<lfloor>b\<rfloor> \<le> round_half_even b" "round_half_even b \<le> \<lfloor>b\<rfloor> + 1"
    by (simp_all add: round_half_even_def Let_def)
  show ?thesis
  proof (cases "\<lfloor>a\<rfloor> = \<lfloor>b\<rfloor>")
    case False
    then have "\<lfloor>a\<rfloor> + 1 \<le> \<lfloor>b\<rfloor>" using le by simp
    then show ?thesis using ra rb by linarith
  next
    case True
    then show ?thesis
      using assms by (auto simp add: round_half_even_def Let_def)
  qed
qed

lemma fl_pos_eq:
  assumes "0 < q"
  shows "fl q = of_int (round_half_even (q / pow2 (ilog2 q - 52))) * pow2 (ilog2 q - 52)"
  using assms by (simp add: fl_def Let_def)

lemma fl_exact:
  assumes "0 < m" and "m < 2 ^ 53"
  shows "fl (of_int m * pow2 j) = of_int m * pow2 j"
proof -
  define q where "q = (of_int m :: rat) * pow2 j"
  have qpos: "0 < q"
    using assms(1) pow2_pos [of j] by (simp add: q_def)
  define e where "e = ilog2 q"
  have b: "pow2 e \<le> q" "q < pow2 (e + 1)"
    using ilog2_bounds [OF qpos] by (simp_all add: e_def)
  have "(of_int m :: rat) < of_int (2 ^ 53)"
    using assms(2) by (simp only: of_int_less_iff)
  then have "(of_int m :: rat) < pow2 53"
    by (simp add: pow2_def)
  then have "q < pow2 53 * pow2 j"
    using pow2_pos [of j] by (simp add: q_def)
  then have "pow2 e < pow2 (53 + j)"
    using b(1) by (simp add: pow2_add)
  then have "e < 53 + j"
    by (simp only: pow2_less_iff)
  then have k: "0 \<le> j - e + 52" by simp
  have "q / pow2 (e - 52) = of_int m * pow2 (j - (e - 52))"
    by (simp add: q_def pow2_diff)
  also have "j - (e - 52) = int (nat (j - e + 52))"
    using k by simp
  also have "of_int m * pow2 (int (nat (j - e + 52))) = (of_int (m * 2 ^ nat (j - e + 52)) :: rat)"
    by (simp only: pow2_nat) simp
  finally have "q / pow2 (e - 52) = of_int (m * 2 ^ nat (j - e + 52))" .
  then have "of_int (round_half_even (q / pow2 (e - 52))) = q / pow2 (e - 52)"
    by (simp only: round_half_even_of_int)
  then have "fl q = q / pow2 (e - 52) * pow2 (e - 52)"
    using fl_pos_eq [OF qpos] by (simp add: e_def)
  also have "\<dots> = q"
    using pow2_pos [of "e - 52"] by simp
  finally show ?thesis by (simp add: q_def)
qed

lemma fl_of_int:
  assumes "0 < m" and "m < 2 ^ 53"
  shows "fl (of_int m) = of_int m"
  using fl_exact [OF assms, of 0] by (simp add: pow2_def)

lemma fl_bounds:
  assumes "0 < q"
  shows "pow2 (ilog2 q) \<le> fl q" and "fl q \<le> pow2 (ilog2 q + 1)"
proof -
  define e where "e = ilog2 q"
  define s where "s = pow2 (e - 52)"
  have spos: "0 < s" by (simp add: s_def pow2_pos)
  have b: "pow2 e \<le> q" "q < pow2 (e + 1)"
    using ilog2_bounds [OF assms] by (simp_all add: e_def)
  have p52: "pow2 52 = of_int (2 ^ 52)" and p53: "pow2 53 = of_int (2 ^ 53)"
    by (simp_all add: pow2_def)
  have "e = 52 + (e - 52)" by arith
  then have "pow2 e = pow2 (52 + (e - 52))" by (rule arg_cong)
  then have lo: "pow2 e = of_int (2 ^ 52) * s"
    by (simp only: pow2_add p52 s_def)
  have "e + 1 = 53 + (e - 52)" by arith
  then have "pow2 (e + 1) = pow2 (53 + (e - 52))" by (rule arg_cong)
  then have hi: "pow2 (e + 1) = of_int (2 ^ 53) * s"
    by (simp only: pow2_add p53 s_def)
  have "of_int (2 ^ 52) * s \<le> q"
    using b(1) by (simp only: lo)
  then have "of_int (2 ^ 52) \<le> q / s"
    using spos by (simp add: field_simps)
  then have "round_half_even (of_int (2 ^ 52)) \<le> round_half_even (q / s)"
    by (rule round_half_even_mono)
  then have 1: "2 ^ 52 \<le> round_half_even (q / s)"
    by (simp only: round_half_even_of_int)
  have "q < of_int (2 ^ 53) * s"
    using b(2) by (simp only: hi)
  then have "q / s \<le> of_int (2 ^ 53)"
    using spos by (simp add: field_simps)
  then have "round_half_even (q / s) \<le> round_half_even (of_int (2 ^ 53))"
    by (rule round_half_even_mono)
  then have 2: "round_half_even (q / s) \<le> 2 ^ 53"
    by (simp only: round_half_even_of_int)
  have f: "fl q = of_int (round_half_even (q / s)) * s"
    using fl_pos_eq [OF assms] by (simp add: e_def s_def)
  have "(of_int (2 ^ 52) :: rat) \<le> of_int (round_half_even (q / s))"
    using 1 by (simp only: of_int_le_iff)
  then have "of_int (2 ^ 52) * s \<le> fl q"
    using spos by (simp add: f)
  then show "pow2 (ilog2 q) \<le> fl q"
    by (simp only: lo e_def [symmetric])
  have "(of_int (round_half_even (q / s)) :: rat) \<le> of_int (2 ^ 53)"
    using 2 by (simp only: of_int_le_iff)
  then have "fl q \<le> of_int (2 ^ 53) * s"
    using spos by (simp add: f)
  then show "fl q \<le> pow2 (ilog2 q + 1)"
    by (simp only: hi e_def [symmetric])
qed

lemma fl_nonneg: "0 \<le> q \<Longrightarrow> 0 \<le> fl q"
  using fl_bounds(1) [of q] pow2_pos [of "ilog2 q"]
  by (cases "q = 0") (simp add: fl_def, force)

lemma fl_mono:
  assumes "0 \<le> x" and "x \<le> y"
  shows "fl x \<le> fl y"
proof (cases "x = 0")
  case True
  then show ?thesis using assms fl_nonneg [of y] by (simp add: fl_def)
next
  case False
  then have xpos: "0 < x" using assms by simp
  then have ypos: "0 < y" using assms by simp
  have bx: "pow2 (ilog2 x) \<le> x" "x < pow2 (ilog2 x + 1)"
    using ilog2_bounds [OF xpos] by simp_all
  have by': "pow2 (ilog2 y) \<le> y" "y < pow2 (ilog2 y + 1)"
    using ilog2_bounds [OF ypos] by simp_all
  have "pow2 (ilog2 x) < pow2 (ilog2 y + 1)"
    using bx(1) by'(2) assms(2) by linarith
  then have le: "ilog2 x \<le> ilog2 y"
    by (simp add: pow2_less_iff)
  show ?thesis
  proof (cases "ilog2 x = ilog2 y")
    case True
    define s where "s = pow2 (ilog2 y - 52)"
    have spos: "0 < s" by (simp add: s_def pow2_pos)
    have "x / s \<le> y / s"
      using assms(2) spos by (simp add: divide_right_mono)
    then have "round_half_even (x / s) \<le> round_half_even (y / s)"
      by (rule round_half_even_mono)
    then have "(of_int (round_half_even (x / s)) :: rat) \<le> of_int (round_half_even (y / s))"
      by (simp only: of_int_le_iff)
    then have "of_int (round_half_even (x / s)) * s \<le> of_int (round_half_even (y / s)) * s"
      using spos by simp
    then show ?thesis
      using fl_pos_eq [OF xpos] fl_pos_eq [OF ypos] True by (simp add: s_def)
  next
    case False
    then have "ilog2 x + 1 \<le> ilog2 y" using le by simp
    then have "pow2 (ilog2 x + 1) \<le> pow2 (ilog2 y)"
      by (rule pow2_mono)
    then show ?thesis
      using fl_bounds(2) [OF xpos] fl_bounds(1) [OF ypos] by linarith
  qed
qed

lemma Math_round_mono: "x \<le> y \<Longrightarrow> Math_round x \<le> Math_round y"
  by (simp add: Math_round_def floor_mono)

lemma percent_mono:
  assumes "total e1 = total e2" and "loaded e1 \<le> loaded e2"
  shows "percent e1 \<le> percent e2"
proof -
  have q: "(of_nat (loaded e1) :: rat) / of_nat (total e1) \<le> of_nat (loaded e2) / of_nat (total e2)"
    using assms by (simp add: divide_right_mono)
  have "fl (of_nat (loaded e1) / of_nat (total e1)) \<le> fl (of_nat (loaded e2) / of_nat (total e2))"
    using q by (intro fl_mono) simp_all
  moreover have "0 \<le> fl (of_nat (loaded e1) / of_nat (total e1))"
    by (intro fl_nonneg) simp
  ultimately have "fl (fl (of_nat (loaded e1) / of_nat (total e1)) * 100)
      \<le> fl (fl (of_nat (loaded e2) / of_nat (total e2)) * 100)"
    by (intro fl_mono) simp_all
  then show ?thesis
    by (simp add: percent_def Math_round_mono)
qed

lemma percent_nonneg: "0 \<le> percent e"
proof -
  have "0 \<le> fl (of_nat (loaded e) / of_nat (total e))"
    by (intro fl_nonneg) simp
  then have "0 \<le> fl (fl (of_nat (loaded e) / of_nat (total e)) * 100)"
    by (intro fl_nonneg) simp
  then show ?thesis
    by (simp add: percent_def Math_round_def)
qed

lemma fl_1: "fl 1 = 1"
  using fl_of_int [of 1] by simp

lemma fl_25: "fl 25 = 25"
  using fl_of_int [of 25] by simp

lemma fl_50: "fl 50 = 50"
  using fl_of_int [of 50] by simp

lemma fl_100: "fl 100 = 100"
  using fl_of_int [of 100] by simp

lemma fl_half: "fl (1 / 2) = 1 / 2"
  using fl_exact [of 1 "- 1"] by (simp add: pow2_def)

lemma fl_quarter: "fl (1 / 4) = 1 / 4"
  using fl_exact [of 1 "- 2"] by (simp add: pow2_def)

lemma Math_round_of_int: "Math_round (of_int n) = n"
proof -
  have "\<lfloor>(of_int n :: rat) + 1 / 2\<rfloor> = n"
    by (rule floor_unique) simp_all
  then show ?thesis by (simp add: Math_round_def)
qed

lemma percent_values:
  "percent (ProgressEvent 1024 2048) = 50"
  "percent (ProgressEvent 512 2048) = 25"
  "percent (ProgressEvent 2048 2048) = 100"
  using Math_round_of_int [of 50] Math_round_of_int [of 25] Math_round_of_int [of 100]
  by (simp_all add: percent_def fl_half fl_quarter fl_50 fl_25 fl_1 fl_100)

lemma number_to_string_of_int: "number_to_string rt (of_int n) = show_int n"
  by (simp add: number_to_string_def)

lemma maxSizeMB_exact:
  assumes "maxFileSize config = Some m" and "0 < m" and "m < 2 ^ 53"
  shows "maxSizeMB config = of_int m / 1048576"
proof -
  have "fl (of_int m * pow2 (- 20)) = of_int m * pow2 (- 20)"
    using assms(2,3) by (rule fl_exact)
  moreover have "pow2 (- 20) = 1 / 1048576"
    by (simp add: pow2_def)
  ultimately have "fl (of_int m / 1048576) = of_int m / 1048576"
    by simp
  then show ?thesis
    using assms(1,2) by (simp add: maxSizeMB_def)
qed

section \<open>Validation\<close>

lemma maxSizeMB_example: "maxSizeMB example_config = 10"
proof -
  have "maxSizeMB example_config = of_int 10485760 / 1048576"
    by (rule maxSizeMB_exact) (simp_all add: example_config_def)
  then show ?thesis by simp
qed

lemma validate_examples:
  "validateFile plain_runtime example_config big_file = Some ''File exceeds maximum size of 10MB''"
  "validateFile plain_runtime example_config pdf_file
     = Some ''File type application/pdf is not allowed''"
  "validateFile plain_runtime example_config small_file = None"
proof -
  have "number_to_string plain_runtime (of_int 10) = ''10''"
    by (simp only: number_to_string_of_int) (simp add: show_int_def show_nat.simps digit_char_def)
  then have "number_to_string plain_runtime (maxSizeMB example_config) = ''10''"
    by (simp add: maxSizeMB_example)
  then show "validateFile plain_runtime example_config big_file
      = Some ''File exceeds maximum size of 10MB''"
    by (simp add: validateFile_def example_config_def big_file_def)
  show "validateFile plain_runtime example_config pdf_file
      = Some ''File type application/pdf is not allowed''"
    by (simp add: validateFile_def example_config_def pdf_file_def)
  show "validateFile plain_runtime example_config small_file = None"
    by (simp add: validateFile_def example_config_def small_file_def)
qed

text \<open>
  C1 (as the code has it). \<open>validateFile\<close> applies its rules in order, the first match
  winning: when \<open>maxFileSize\<close> is set to a number other than zero and the file is larger,
  it returns the size message; otherwise, when \<open>allowedTypes\<close> is a non-empty list without
  the file's type, it returns the type message, which names the type; otherwise it
  returns no error. A limit of zero counts as no limit.
\<close>

theorem validateFile_rules:
  "(\<forall>m. maxFileSize config = Some m \<and> m \<noteq> 0 \<and> m < size_f file \<longrightarrow>
      validateFile rt config file =
        Some (''File exceeds maximum size of '' @ number_to_string rt (maxSizeMB config) @ ''MB''))
   \<and> (\<not> (\<exists>m. maxFileSize config = Some m \<and> m \<noteq> 0 \<and> m < size_f file) \<longrightarrow>
        (\<forall>ts. allowedTypes config = Some ts \<and> ts \<noteq> [] \<and> type_f file \<notin> set ts \<longrightarrow>
           validateFile rt config file = Some (''File type '' @ type_f file @ '' is not allowed'')))
   \<and> (\<not> (\<exists>m. maxFileSize config = Some m \<and> m \<noteq> 0 \<and> m < size_f file) \<and>
       \<not> (\<exists>ts. allowedTypes config = Some ts \<and> ts \<noteq> [] \<and> type_f file \<notin> set ts) \<longrightarrow>
        validateFile rt config file = None)"
  by (auto simp add: validateFile_def split: option.splits)

theorem validateFile_rules_witness:
  "validateFile plain_runtime example_config big_file
     = Some (''File exceeds maximum size of ''
             @ number_to_string plain_runtime (maxSizeMB example_config) @ ''MB'')
   \<and> validateFile plain_runtime example_config pdf_file
     = Some (''File type '' @ type_f pdf_file @ '' is not allowed'')
   \<and> validateFile plain_runtime example_config small_file = None"
  using validateFile_rules [of example_config big_file plain_runtime]
    validateFile_rules [of example_config pdf_file plain_runtime]
    validateFile_rules [of example_config small_file plain_runtime]
  by (simp add: example_config_def big_file_def pdf_file_def small_file_def)

text \<open>
  C1 as stated fails where the limit is set to zero: the file is larger than the limit,
  and no error is returned.
\<close>

theorem zero_limit_accepts:
  "maxFileSize zero_limit_config = Some 0 \<and> 0 < size_f big_file
   \<and> validateFile plain_runtime zero_limit_config big_file = None"
  by (simp add: validateFile_def zero_limit_config_def example_config_def big_file_def)

text \<open>
  C7 (as the code has it). For a file rejected for its size, under a limit of \<open>m\<close> bytes
  with \<open>0 < m < 2^53\<close>, the message names \<open>m / 1048576\<close> in the text \<open>String\<close> gives a
  number: the digits of the integer when the limit is a whole number of megabytes, with
  no decimal point, and the engine's shortest decimal otherwise. Nothing rounds it to
  one decimal place.
\<close>

theorem size_message_names_limit:
  assumes "maxFileSize config = Some m" and "0 < m" and "m < 2 ^ 53" and "m < size_f file"
  shows "validateFile rt config file =
     Some (''File exceeds maximum size of ''
           @ (if m mod 1048576 = 0 then show_int (m div 1048576)
              else frac_to_string rt (of_int m / 1048576))
           @ ''MB'')"
proof -
  have mb: "maxSizeMB config = of_int m / 1048576"
    using assms(1-3) by (rule maxSizeMB_exact)
  have v: "validateFile rt config file =
      Some (''File exceeds maximum size of '' @ number_to_string rt (of_int m / 1048576) @ ''MB'')"
    using assms(1,2,4) by (simp add: validateFile_def mb)
  show ?thesis
  proof (cases "m mod 1048576 = 0")
    case True
    then have "m = (m div 1048576) * 1048576"
      by (simp add: mod_eq_0_iff_dvd)
    then have "(of_int m :: rat) / 1048576 = of_int (m div 1048576)"
      by (metis of_int_mult of_int_numeral nonzero_mult_div_cancel_right zero_neq_numeral)
    then show ?thesis
      using True v by (simp add: number_to_string_of_int)
  next
    case False
    have "of_int \<lfloor>(of_int m :: rat) / 1048576\<rfloor> \<noteq> (of_int m :: rat) / 1048576"
    proof
      assume "of_int \<lfloor>(of_int m :: rat) / 1048576\<rfloor> = (of_int m :: rat) / 1048576"
      then have "(of_int m :: rat) = of_int (\<lfloor>(of_int m :: rat) / 1048576\<rfloor> * 1048576)"
        by simp
      then have "m = \<lfloor>(of_int m :: rat) / 1048576\<rfloor> * 1048576"
        by (simp only: of_int_eq_iff)
      then have "m mod 1048576 = 0"
        by (metis mod_mult_self2_is_0)
      then show False using False by simp
    qed
    then show ?thesis
      using False v by (simp add: number_to_string_def)
  qed
qed

theorem size_message_names_limit_witness:
  "maxFileSize example_config = Some 10485760 \<and> (0 :: int) < 10485760
   \<and> (10485760 :: int) < 2 ^ 53 \<and> 10485760 < size_f big_file
   \<and> validateFile plain_runtime example_config big_file
       = Some ''File exceeds maximum size of 10MB''"
  using size_message_names_limit [of example_config 10485760 big_file plain_runtime]
  by (simp add: example_config_def big_file_def show_int_def show_nat.simps digit_char_def)

text \<open>
  C7 as stated fails at a limit of ten megabytes: the message reads \<open>10MB\<close>, where one
  decimal place would read \<open>10.0MB\<close>.
\<close>

theorem size_message_not_one_decimal:
  "validateFile plain_runtime example_config big_file = Some ''File exceeds maximum size of 10MB''
   \<and> toFixed1 (maxSizeMB example_config) = ''10.0''"
proof -
  have "toFixed1 10 = ''10.0''"
    by code_simp
  then show ?thesis
    using validate_examples(1) by (simp add: maxSizeMB_example)
qed

section \<open>Identifiers\<close>

text \<open>
  C8 (as the code has it). The id of a new record is what follows the first two
  characters of the draw's base-36 text, cut to nine characters: it has at most nine
  characters, and two records have the same id exactly when their draws agree on those
  characters.
\<close>

theorem id_of_record:
  "id_u (createUploadFile w file) = take 9 (drop 2 (random36 w))
   \<and> length (id_u (createUploadFile w file)) \<le> 9
   \<and> (id_u (createUploadFile w file) = id_u (createUploadFile w' file')
        \<longleftrightarrow> take 9 (drop 2 (random36 w)) = take 9 (drop 2 (random36 w')))"
  by (simp add: createUploadFile_def generateId_def substring_def)

text \<open>
  C8 as stated fails: the draw \<open>0.5\<close>, whose base-36 text is \<open>0.i\<close>, gives an id of one
  character, and two draws that differ after the ninth digit give two records the same id.
\<close>

theorem short_and_equal_ids:
  "length (id_u (createUploadFile half_world small_file)) = 1
   \<and> random36 ok_world \<noteq> random36 twin_world
   \<and> id_u (createUploadFile ok_world small_file) = id_u (createUploadFile twin_world pdf_file)"
  by (simp add: createUploadFile_def generateId_def substring_def half_world_def ok_world_def
      twin_world_def)

section \<open>One upload\<close>

lemma on_progress_fields:
  "status (fst (on_progress es u)) = status u \<and> s3Key (fst (on_progress es u)) = s3Key u
   \<and> error (fst (on_progress es u)) = error u"
  by (induction es arbitrary: u) (simp_all add: split_beta Let_def)

lemma on_progress_snapshots:
  "Emit_upload_progress v \<in> set (snd (on_progress es u)) \<Longrightarrow> s3Key v = s3Key u \<and> status v = status u"
proof (induction es arbitrary: u)
  case Nil
  then show ?case by simp
next
  case (Cons e es)
  then show ?case
    by (cases "lengthComputable e") (auto simp add: split_beta Let_def)
qed

lemma catch_block_status: "status (fst (catch_block err u tr)) = Error"
  by (simp add: catch_block_def Let_def)

text \<open>
  C2. When the presign request succeeds with \<open>{uploadUrl, key}\<close> and the transfer ends with
  a 2xx status, whatever progress events it reported, the record ends completed, with
  progress 100 and the key of the response as its \<open>s3Key\<close>, and the last effect is the
  completion notification carrying that record.
\<close>

theorem upload_success:
  assumes "presign w = Response True (JsonBody (Some url) (Some k))"
    and "transfer w = XhrRun events (Load st)"
    and "200 \<le> st" and "st < 300"
  shows "status (fst (uploadToS3 config w file uploadFile)) = Completed
     \<and> progress (fst (uploadToS3 config w file uploadFile)) = Some 100
     \<and> s3Key (fst (uploadToS3 config w file uploadFile)) = Some k
     \<and> last (snd (uploadToS3 config w file uploadFile))
         = Emit_upload_complete (fst (uploadToS3 config w file uploadFile))"
  using assms on_progress_fields [of events "uploadFile\<lparr>status := Uploading, s3Key := Some k\<rparr>"]
  by (simp add: uploadToS3_def Let_def split_beta)

theorem upload_success_witness:
  "presign ok_world
     = Response True (JsonBody (Some ''https://bucket.example/put'') (Some ''uploads/a.png''))
   \<and> transfer ok_world = XhrRun [ProgressEvent 1024 2048, ProgressEvent 2048 2048] (Load 200)
   \<and> (200 :: nat) \<le> 200 \<and> (200 :: nat) < 300
   \<and> status (fst (uploadToS3 example_config ok_world small_file
                    (createUploadFile ok_world small_file))) = Completed
   \<and> progress (fst (uploadToS3 example_config ok_world small_file
                      (createUploadFile ok_world small_file))) = Some 100
   \<and> s3Key (fst (uploadToS3 example_config ok_world small_file
                   (createUploadFile ok_world small_file))) = Some ''uploads/a.png''
   \<and> last (snd (uploadToS3 example_config ok_world small_file
                   (createUploadFile ok_world small_file)))
       = Emit_upload_complete (fst (uploadToS3 example_config ok_world small_file
                                      (createUploadFile ok_world small_file)))"
  using upload_success [of ok_world "''https://bucket.example/put''" "''uploads/a.png''"
      "[ProgressEvent 1024 2048, ProgressEvent 2048 2048]" 200 example_config small_file
      "createUploadFile ok_world small_file"]
  by (simp add: ok_world_def)

text \<open>
  C9. The key is stored on the record as soon as the presign response is read, before
  the transfer: when the presign request succeeds and the transfer fails, the record
  ends in error with the key of the response as its \<open>s3Key\<close>, and every progress
  notification of the transfer already carried that key.
\<close>

theorem key_kept_on_failure:
  assumes "presign w = Response True (JsonBody url k)"
    and "transfer_failed (transfer w)"
  shows "status (fst (uploadToS3 config w file uploadFile)) = Error
     \<and> s3Key (fst (uploadToS3 config w file uploadFile)) = k
     \<and> (\<forall>v. Emit_upload_progress v \<in> set (snd (uploadToS3 config w file uploadFile)) \<longrightarrow>
            s3Key v = k \<and> status v = Uploading)"
proof (cases "transfer w")
  case (XhrThrew err)
  then show ?thesis
    using assms(1) by (simp add: uploadToS3_def Let_def catch_block_def)
next
  case (XhrRun events fin)
  define u2 where "u2 = uploadFile\<lparr>status := Uploading, s3Key := k\<rparr>"
  obtain u3 tp where op: "on_progress events u2 = (u3, tp)"
    by (cases "on_progress events u2")
  have f: "status u3 = Uploading" "s3Key u3 = k"
    using on_progress_fields [of events u2] op by (simp_all add: u2_def)
  have s: "\<forall>v. Emit_upload_progress v \<in> set tp \<longrightarrow> s3Key v = k \<and> status v = Uploading"
    using on_progress_snapshots [of _ events u2] op by (simp add: u2_def)
  have failed: "case fin of Load st \<Rightarrow> \<not> (200 \<le> st \<and> st < 300) | NetError \<Rightarrow> True"
    using assms(2) XhrRun by (cases fin) simp_all
  define t3 where "t3 = [Emit_upload_start (uploadFile\<lparr>status := Uploading\<rparr>),
          Fetch_POST (presignedUrlEndpoint config)
            \<lparr>fileName = name_f file, fileType = type_f file, fileSize = size_f file\<rparr>]
         @ [Xhr_PUT (url_string url) (type_f file) file] @ tp"
  have r: "\<exists>msg. uploadToS3 config w file uploadFile = catch_block (ErrorObj msg) u3 t3"
  proof (cases fin)
    case (Load st)
    then have nf: "(200 \<le> st \<and> st < 300) = False"
      using failed by simp
    have "uploadToS3 config w file uploadFile
        = catch_block (ErrorObj (''Upload failed with status '' @ show_nat st)) u3 t3"
      using assms(1) XhrRun op Load
      by (simp add: uploadToS3_def Let_def u2_def t3_def nf)
    then show ?thesis by blast
  next
    case NetError
    then have "uploadToS3 config w file uploadFile
        = catch_block (ErrorObj ''Upload failed'') u3 t3"
      using assms(1) XhrRun op
      by (simp add: uploadToS3_def Let_def u2_def t3_def)
    then show ?thesis by blast
  qed
  then obtain msg where r': "uploadToS3 config w file uploadFile = catch_block (ErrorObj msg) u3 t3"
    by blast
  have "\<forall>v. Emit_upload_progress v \<in> set t3 \<longrightarrow> s3Key v = k \<and> status v = Uploading"
    using s by (simp add: t3_def)
  then show ?thesis
    using f by (simp add: r' catch_block_def Let_def)
qed

theorem key_kept_on_failure_witness:
  "presign rejected_world
     = Response True (JsonBody (Some ''https://bucket.example/put'') (Some ''uploads/a.png''))
   \<and> transfer_failed (transfer rejected_world)
   \<and> status (fst (uploadToS3 example_config rejected_world small_file
                    (createUploadFile rejected_world small_file))) = Error
   \<and> s3Key (fst (uploadToS3 example_config rejected_world small_file
                   (createUploadFile rejected_world small_file))) = Some ''uploads/a.png''"
  using key_kept_on_failure [of rejected_world "Some ''https://bucket.example/put''"
      "Some ''uploads/a.png''" example_config small_file "createUploadFile rejected_world small_file"]
  by (simp add: rejected_world_def ok_world_def)

section \<open>Progress\<close>

lemma progress_values_append:
  "progress_values (xs @ ys) = progress_values xs @ progress_values ys"
  by (induction xs) (simp_all split: option.splits)

lemma uploading_progress_append:
  "uploading_progress (a @ b) = uploading_progress a @ uploading_progress b"
  by (simp add: uploading_progress_def progress_values_append)

lemma uploading_progress_Nil: "uploading_progress [] = []"
  by (simp add: uploading_progress_def)

lemma uploading_progress_Cons:
  "uploading_progress (e # tr)
     = progress_values (filter (\<lambda>u. status u = Uploading) (notified e)) @ uploading_progress tr"
  using uploading_progress_append [of "[e]" tr] by (simp add: uploading_progress_def)

lemma uploading_progress_on_progress:
  "status u = Uploading \<Longrightarrow>
   uploading_progress (snd (on_progress es u)) = map percent (filter lengthComputable es)"
proof (induction es arbitrary: u)
  case Nil
  then show ?case by (simp add: uploading_progress_def)
next
  case (Cons e es)
  show ?case
  proof (cases "lengthComputable e")
    case True
    have "uploading_progress (snd (on_progress es (u\<lparr>progress := Some (percent e)\<rparr>)))
        = map percent (filter lengthComputable es)"
      using Cons.prems by (intro Cons.IH) simp
    then show ?thesis
      using True Cons.prems by (simp add: split_beta Let_def uploading_progress_Cons)
  next
    case False
    then show ?thesis
      using Cons by simp
  qed
qed

lemma sorted_percent:
  assumes "sorted_wrt (\<lambda>e1 e2. total e1 = total e2 \<and> loaded e1 \<le> loaded e2) es"
  shows "sorted (0 # map percent (filter lengthComputable es))"
proof -
  have "sorted_wrt (\<lambda>e1 e2. percent e1 \<le> percent e2) es"
    using assms by (rule sorted_wrt_mono_rel [rotated]) (simp add: percent_mono)
  then have "sorted_wrt (\<lambda>e1 e2. percent e1 \<le> percent e2) (filter lengthComputable es)"
    by (rule sorted_wrt_filter)
  then have "sorted (map percent (filter lengthComputable es))"
    by (simp add: sorted_map)
  then show ?thesis
    by (simp add: percent_nonneg)
qed

lemma uploading_progress_catch:
  "uploading_progress (snd (catch_block err u tr)) = uploading_progress tr"
  by (simp add: catch_block_def Let_def uploading_progress_append uploading_progress_Cons
      uploading_progress_Nil)

lemma run_ok:
  "status (fst (uploadToS3 example_config ok_world small_file
                  (createUploadFile ok_world small_file))) = Completed"
  "progress (fst (uploadToS3 example_config ok_world small_file
                    (createUploadFile ok_world small_file))) = Some 100"
  "uploading_progress (snd (uploadToS3 example_config ok_world small_file
                              (createUploadFile ok_world small_file))) = [0, 50, 100]"
  by (simp_all add: uploadToS3_def ok_world_def createUploadFile_def Let_def
      lengthComputable_def percent_values uploading_progress_Cons uploading_progress_Nil)

lemma run_rejected:
  "status (fst (uploadToS3 example_config rejected_world small_file
                  (createUploadFile rejected_world small_file))) = Error"
  "progress (fst (uploadToS3 example_config rejected_world small_file
                    (createUploadFile rejected_world small_file))) = Some 100"
  "uploading_progress (snd (uploadToS3 example_config rejected_world small_file
                              (createUploadFile rejected_world small_file))) = [0, 100]"
  by (simp_all add: uploadToS3_def rejected_world_def ok_world_def createUploadFile_def Let_def
      lengthComputable_def catch_block_def percent_values uploading_progress_Cons
      uploading_progress_Nil)

lemma run_regress:
  "uploading_progress (snd (uploadToS3 example_config regress_world small_file
                              (createUploadFile regress_world small_file))) = [0, 50, 25]"
  by (simp add: uploadToS3_def regress_world_def ok_world_def createUploadFile_def Let_def
      lengthComputable_def catch_block_def percent_values uploading_progress_Cons
      uploading_progress_Nil)

text \<open>
  C6 (as the code has it). For a record with progress 0, as \<open>createUploadFile\<close> makes it,
  and a transfer whose progress events have one total and loaded counts that do not
  decrease, the progress the record shows while it is uploading does not decrease; and
  when the record ends completed, its progress is 100. Progress can be 100 before that.
\<close>

theorem progress_while_uploading:
  assumes "progress uploadFile = Some 0"
    and "sorted_wrt (\<lambda>e1 e2. total e1 = total e2 \<and> loaded e1 \<le> loaded e2)
           (progress_events (transfer w))"
  shows "sorted (uploading_progress (snd (uploadToS3 config w file uploadFile)))
     \<and> (status (fst (uploadToS3 config w file uploadFile)) = Completed \<longrightarrow>
          progress (fst (uploadToS3 config w file uploadFile)) = Some 100)"
proof -
  define u1 where "u1 = uploadFile\<lparr>status := Uploading\<rparr>"
  define t1 where "t1 = [Emit_upload_start u1,
      Fetch_POST (presignedUrlEndpoint config)
        \<lparr>fileName = name_f file, fileType = type_f file, fileSize = size_f file\<rparr>]"
  have p1: "uploading_progress t1 = [0]"
    using assms(1) by (simp add: t1_def u1_def uploading_progress_def)
  show ?thesis
  proof (cases "presign w")
    case (FetchRejected err)
    then show ?thesis
      using p1 by (simp add: uploadToS3_def Let_def u1_def [symmetric] t1_def [symmetric]
          uploading_progress_catch catch_block_status)
  next
    case (Response ok body)
    show ?thesis
    proof (cases "ok")
      case False
      then show ?thesis
        using p1 Response by (simp add: uploadToS3_def Let_def u1_def [symmetric] t1_def [symmetric]
            uploading_progress_catch catch_block_status)
    next
      case True
      show ?thesis
      proof (cases body)
        case (JsonThrew err)
        then show ?thesis
          using p1 Response True by (simp add: uploadToS3_def Let_def u1_def [symmetric]
              t1_def [symmetric] uploading_progress_catch catch_block_status)
      next
        case (JsonBody url k)
        define u2 where "u2 = u1\<lparr>s3Key := k\<rparr>"
        show ?thesis
        proof (cases "transfer w")
          case (XhrThrew err)
          then show ?thesis
            using p1 Response True JsonBody by (simp add: uploadToS3_def Let_def u1_def [symmetric]
                t1_def [symmetric] uploading_progress_catch catch_block_status)
        next
          case (XhrRun events fin)
          obtain u3 tp where op: "on_progress events u2 = (u3, tp)"
            by (cases "on_progress events u2")
          have "uploading_progress (snd (on_progress events u2))
              = map percent (filter lengthComputable events)"
            by (rule uploading_progress_on_progress) (simp add: u2_def u1_def)
          then have ptp: "uploading_progress tp = map percent (filter lengthComputable events)"
            using op by simp
          define t3 where "t3 = (t1 @ [Xhr_PUT (url_string url) (type_f file) file]) @ tp"
          have "uploading_progress t3 = 0 # map percent (filter lengthComputable events)"
            by (simp add: t3_def uploading_progress_append p1 ptp uploading_progress_Cons)
          moreover have "sorted (0 # map percent (filter lengthComputable events))"
            using assms(2) XhrRun by (intro sorted_percent) simp
          ultimately have p3: "sorted (uploading_progress t3)"
            by simp
          have r: "uploadToS3 config w file uploadFile =
              (case fin of
                 Load st \<Rightarrow>
                   if 200 \<le> st \<and> st < 300
                   then (u3\<lparr>status := Completed, progress := Some 100\<rparr>,
                         t3 @ [Emit_upload_complete (u3\<lparr>status := Completed, progress := Some 100\<rparr>)])
                   else catch_block (ErrorObj (''Upload failed with status '' @ show_nat st)) u3 t3
               | NetError \<Rightarrow> catch_block (ErrorObj ''Upload failed'') u3 t3)"
            using Response True JsonBody XhrRun op
            unfolding u2_def u1_def t3_def t1_def
            by (simp add: uploadToS3_def Let_def split: xhr_end.splits)
          show ?thesis
          proof (cases fin)
            case (Load st)
            show ?thesis
              using p3 Load by (simp add: r uploading_progress_catch catch_block_status
                  uploading_progress_append uploading_progress_Cons uploading_progress_Nil)
          next
            case NetError
            then show ?thesis
              using p3 by (simp add: r uploading_progress_catch catch_block_status)
          qed
        qed
      qed
    qed
  qed
qed

theorem progress_while_uploading_witness:
  "progress (createUploadFile ok_world small_file) = Some 0
   \<and> sorted_wrt (\<lambda>e1 e2. total e1 = total e2 \<and> loaded e1 \<le> loaded e2)
        (progress_events (transfer ok_world))
   \<and> sorted (uploading_progress (snd (uploadToS3 example_config ok_world small_file
                                        (createUploadFile ok_world small_file))))
   \<and> status (fst (uploadToS3 example_config ok_world small_file
                    (createUploadFile ok_world small_file))) = Completed
   \<and> progress (fst (uploadToS3 example_config ok_world small_file
                      (createUploadFile ok_world small_file))) = Some 100"
  using progress_while_uploading [of "createUploadFile ok_world small_file" ok_world
      example_config small_file] run_ok(1)
  by (simp add: ok_world_def createUploadFile_def)

text \<open>
  C6 as stated fails twice. A transfer that reports all bytes sent and then ends with
  status 403 leaves the record in error with progress 100, which it already showed while
  uploading; and progress events whose loaded count goes down take the progress shown
  from 50 to 25.
\<close>

theorem progress_full_without_completion:
  "status (fst (uploadToS3 example_config rejected_world small_file
                  (createUploadFile rejected_world small_file))) = Error
   \<and> progress (fst (uploadToS3 example_config rejected_world small_file
                      (createUploadFile rejected_world small_file))) = Some 100
   \<and> uploading_progress (snd (uploadToS3 example_config rejected_world small_file
                                (createUploadFile rejected_world small_file))) = [0, 100]
   \<and> uploading_progress (snd (uploadToS3 example_config regress_world small_file
                                (createUploadFile regress_world small_file))) = [0, 50, 25]"
  using run_rejected run_regress by simp

section \<open>A selection\<close>

text \<open>
  C10. For no selection (\<open>null\<close>) and for an empty one, \<open>handleFiles\<close> creates no record and
  has no effect at all: no notification, the selection event included, and no request.
\<close>

theorem handleFiles_no_selection:
  "handleFiles rt config env None = ([], []) \<and> handleFiles rt config env (Some []) = ([], [])"
  by (simp add: handleFiles_def)

lemma batch_records:
  "create_loop plain_runtime example_config env 0 batch_files
     = [createUploadFile (env 0) (batch_files ! 0), createUploadFile (env 1) (batch_files ! 1),
        createUploadFile (env 2) (batch_files ! 2)]"
  by (simp add: batch_files_def create_step_def validateFile_def example_config_def
      numeral_2_eq_2)

lemma batch_kept:
  "map status (fst (handleFiles plain_runtime example_config batch_env (Some batch_files)))
     = [Completed, Error, Completed]"
  by (simp add: handleFiles_def batch_records)
    (simp add: batch_files_def batch_env_def createUploadFile_def index_read_def
      uploadToS3_call_def uploadToS3_def ok_world_def rejected_world_def Let_def split_beta
      catch_block_def on_progress_fields)

lemma batch_picked:
  "map status (fst (handleInputChange plain_runtime example_config batch_env (Some batch_files)))
     = [Completed, Error, Error]"
  "map error (fst (handleInputChange plain_runtime example_config batch_env (Some batch_files)))
     = [None, Some (v8_undefined_read ''name''), Some (v8_undefined_read ''name'')]"
  "filter is_request
     (snd (handleInputChange plain_runtime example_config batch_env (Some batch_files)))
     = [Fetch_POST ''/api/presign''
          \<lparr>fileName = ''a.png'', fileType = ''image/png'', fileSize = 2048\<rparr>,
        Xhr_PUT ''https://bucket.example/put'' ''image/png'' (batch_files ! 0)]"
  by (simp_all add: handleInputChange_def handleFiles_def batch_records)
    (simp_all add: batch_files_def batch_env_def createUploadFile_def index_read_def
      uploadToS3_call_def uploadToS3_def ok_world_def rejected_world_def Let_def split_beta
      catch_block_def on_progress_fields plain_runtime_def example_config_def url_string_def
      lengthComputable_def)

text \<open>
  C3 (where the code departs from it). Three valid files are chosen with the file
  input, and the second transfer would be rejected. \<open>handleInputChange\<close> empties the
  selection while the first upload is awaited, and the second loop reads its files from
  the selection, not from the copy the first loop went over: the first record ends
  completed, the second and the third end in error with the message of a \<open>TypeError\<close>,
  and no request is made for either of them, where the claim has completed, error,
  completed and every later record uploaded. When the selection keeps its files the
  same batch does end completed, error, completed.
\<close>

theorem picked_batch_loses_later_files:
  "map status (fst (handleInputChange plain_runtime example_config batch_env (Some batch_files)))
     = [Completed, Error, Error]
   \<and> map error (fst (handleInputChange plain_runtime example_config batch_env (Some batch_files)))
       = [None, Some (v8_undefined_read ''name''), Some (v8_undefined_read ''name'')]
   \<and> filter is_request
        (snd (handleInputChange plain_runtime example_config batch_env (Some batch_files)))
       = [Fetch_POST ''/api/presign''
            \<lparr>fileName = ''a.png'', fileType = ''image/png'', fileSize = 2048\<rparr>,
          Xhr_PUT ''https://bucket.example/put'' ''image/png'' (batch_files ! 0)]
   \<and> map status (fst (handleFiles plain_runtime example_config batch_env (Some batch_files)))
       = [Completed, Error, Completed]"
  using batch_picked batch_kept by simp

section \<open>The table's projection\<close>

lemma startsWith_prefix: "startsWith s t \<longleftrightarrow> prefix t s"
  by (induction s t rule: startsWith.induct) auto

lemma includes_s_sublist: "includes_s s t \<longleftrightarrow> sublist t s"
proof (induction s)
  case Nil
  show ?case by auto
next
  case (Cons a s)
  show ?case
    by (simp only: includes_s.simps startsWith_prefix Cons.IH sublist_Cons_right)
qed

lemma mset_insert_sorted: "mset (insert_sorted cmp x ys) = add_mset x (mset ys)"
  by (induction ys) simp_all

lemma mset_Array_sort: "mset (Array_sort cmp xs) = mset xs"
  by (induction xs) (simp_all add: mset_insert_sorted)

text \<open>
  C4. With a non-empty filter text the projection holds exactly the records whose
  lower-cased name, type or status contains the lower-cased text as a contiguous run,
  each as often as the input holds it; with an empty text it holds every record. The
  columns, and so their \<open>filterable\<close> flags, have no part in it.
\<close>

theorem filter_keeps_matches:
  "mset (filteredAndSortedUploads rt props st)
     = mset (if filterText st = [] then uploads props
             else filter (\<lambda>u. sublist (toLowerCase (filterText st)) (toLowerCase (name_u u))
                             \<or> sublist (toLowerCase (filterText st)) (toLowerCase (type_u u))
                             \<or> sublist (toLowerCase (filterText st))
                                  (toLowerCase (status_string (status u))))
                    (uploads props))
   \<and> filteredAndSortedUploads rt (props\<lparr>columns := cs\<rparr>) st = filteredAndSortedUploads rt props st"
  by (simp add: filteredAndSortedUploads_def Let_def mset_Array_sort matches_def
      includes_s_sublist)

lemma lower_examples:
  "toLowerCase ''png'' = ''png''" "toLowerCase ''a.png'' = ''a.png''"
  "toLowerCase ''b.txt'' = ''b.txt''" "toLowerCase ''image/png'' = ''image/png''"
  "toLowerCase ''text/plain'' = ''text/plain''" "toLowerCase ''completed'' = ''completed''"
  "toLowerCase ''pending'' = ''pending''" "toLowerCase ''C.PNG'' = ''c.png''"
  "toLowerCase ''PNG'' = ''png''"
  by code_simp+

lemma png_run: "filteredAndSortedUploads plain_runtime table_props png_filter = [a_png]"
  by (simp add: filteredAndSortedUploads_def table_props_def png_filter_def a_png_def b_txt_def
      matches_def lower_examples Let_def)

text \<open>With the text \<open>png\<close>, of \<open>a.png\<close> (completed) and \<open>b.txt\<close> (pending) only \<open>a.png\<close> is kept.\<close>

theorem filter_keeps_matches_witness:
  "mset (filteredAndSortedUploads plain_runtime table_props png_filter) = {#a_png#}
   \<and> sublist (toLowerCase ''png'') (toLowerCase (name_u a_png))
   \<and> \<not> sublist (toLowerCase ''png'') (toLowerCase (name_u b_txt))
   \<and> \<not> sublist (toLowerCase ''png'') (toLowerCase (type_u b_txt))
   \<and> \<not> sublist (toLowerCase ''png'') (toLowerCase (status_string (status b_txt)))"
  using filter_keeps_matches [of plain_runtime table_props png_filter]
  by (simp add: table_props_def png_filter_def a_png_def b_txt_def lower_examples
      includes_s_sublist [symmetric])

lemma field_same_kind: "same_kind (field k a) (field k b)"
  by (simp add: field_def split: option.splits)

lemma compare_zero_iff:
  "compare_uploads rt k dir a b = 0 \<longleftrightarrow> equal_vals rt (field k a) (field k b)"
proof -
  define c where "c = (case (field k a, field k b) of
           (VDate x, VDate y) \<Rightarrow> x - y
         | (VNum x, VNum y) \<Rightarrow> x - y
         | _ \<Rightarrow> localeCompare rt (String_v rt (field k a)) (String_v rt (field k b)))"
  have "compare_uploads rt k dir a b
      = (if strict_eq (field k a) (field k b) then 0 else if dir = Asc then c else - c)"
    by (simp add: compare_uploads_def Let_def c_def)
  moreover have "equal_vals rt (field k a) (field k b)
      \<longleftrightarrow> strict_eq (field k a) (field k b) \<or> c = 0"
    by (simp add: equal_vals_def c_def)
  ultimately show ?thesis
    by simp
qed

lemma equal_vals_stringy:
  assumes "collation rt" and "stringy v" and "stringy w"
  shows "equal_vals rt v w \<longleftrightarrow> localeCompare rt (String_v rt v) (String_v rt w) = 0"
proof -
  have refl: "\<And>s. localeCompare rt s s = 0"
    using assms(1) unfolding collation_def by blast
  show ?thesis
    using assms(2,3) refl by (cases v; cases w) (auto simp add: equal_vals_def)
qed

lemma equal_vals_cases:
  assumes "collation rt" and "same_kind a x" and "equal_vals rt a x"
  shows "(\<exists>d. a = VDate d \<and> x = VDate d) \<or> (\<exists>n. a = VNum n \<and> x = VNum n)
     \<or> (stringy a \<and> stringy x \<and> localeCompare rt (String_v rt a) (String_v rt x) = 0)"
proof -
  have refl: "\<And>s. localeCompare rt s s = 0"
    using assms(1) unfolding collation_def by blast
  have sym: "\<And>s t. localeCompare rt s t = 0 \<Longrightarrow> localeCompare rt t s = 0"
    using assms(1) unfolding collation_def by blast
  have num: "\<And>n. localeCompare rt (show_int n) ''undefined'' \<noteq> 0"
    using assms(1) unfolding collation_def by blast
  have num': "localeCompare rt ''undefined'' (show_int n) \<noteq> 0" for n
  proof
    assume "localeCompare rt ''undefined'' (show_int n) = 0"
    then have "localeCompare rt (show_int n) ''undefined'' = 0"
      by (rule sym)
    then show False
      using num by simp
  qed
  show ?thesis
  proof (cases a)
    case (VDate d)
    then show ?thesis
      using assms(2,3) by (cases x) (simp_all add: equal_vals_def)
  next
    case (VNum n)
    then show ?thesis
      using assms(2,3) num by (cases x) (simp_all add: equal_vals_def number_to_string_of_int)
  next
    case (VStr s)
    then show ?thesis
      using assms(2,3) refl by (cases x) (auto simp add: equal_vals_def)
  next
    case VUndefined
    then show ?thesis
      using assms(2,3) refl num' by (cases x) (simp_all add: equal_vals_def number_to_string_of_int)
  qed
qed

lemma equal_vals_trans:
  assumes "collation rt"
    and "same_kind a x" and "same_kind a y"
    and "equal_vals rt a x" and "equal_vals rt a y"
  shows "equal_vals rt x y"
proof -
  have sym: "\<And>s t. localeCompare rt s t = 0 \<Longrightarrow> localeCompare rt t s = 0"
    using assms(1) unfolding collation_def by blast
  have trans: "\<And>s t u. localeCompare rt s t = 0 \<Longrightarrow> localeCompare rt t u = 0 \<Longrightarrow> localeCompare rt s u = 0"
    using assms(1) unfolding collation_def by blast
  consider (date) d where "a = VDate d" "x = VDate d"
    | (num) n where "a = VNum n" "x = VNum n"
    | (str) "stringy a" "stringy x" "localeCompare rt (String_v rt a) (String_v rt x) = 0"
    using equal_vals_cases [OF assms(1,2,4)] by blast
  then show ?thesis
  proof cases
    case date
    then have "y = VDate d"
      using equal_vals_cases [OF assms(1,3,5)] by auto
    then show ?thesis
      using date by (simp add: equal_vals_def)
  next
    case num
    then have "y = VNum n"
      using equal_vals_cases [OF assms(1,3,5)] by auto
    then show ?thesis
      using num by (simp add: equal_vals_def)
  next
    case str
    then have y: "stringy y" "localeCompare rt (String_v rt a) (String_v rt y) = 0"
      using equal_vals_cases [OF assms(1,3,5)] by auto
    have "localeCompare rt (String_v rt x) (String_v rt a) = 0"
      using str(3) by (rule sym)
    then have "localeCompare rt (String_v rt x) (String_v rt y) = 0"
      using y(2) by (rule trans)
    then show ?thesis
      using equal_vals_stringy [OF assms(1) str(2) y(1)] by simp
  qed
qed

lemma compare_zero_trans:
  assumes "collation rt"
    and "compare_uploads rt k dir a x = 0" and "compare_uploads rt k dir a y = 0"
  shows "compare_uploads rt k dir x y = 0"
proof -
  have "equal_vals rt (field k a) (field k x)"
    using assms(2) by (simp only: compare_zero_iff)
  moreover have "equal_vals rt (field k a) (field k y)"
    using assms(3) by (simp only: compare_zero_iff)
  ultimately have "equal_vals rt (field k x) (field k y)"
    by (rule equal_vals_trans [OF assms(1) field_same_kind field_same_kind])
  then show ?thesis
    by (simp only: compare_zero_iff)
qed

lemma insert_sorted_sorted:
  assumes total: "\<And>x y. cmp x y \<le> 0 \<or> cmp y x \<le> (0 :: int)"
    and trans: "\<And>x y z. cmp x y \<le> 0 \<Longrightarrow> cmp y z \<le> 0 \<Longrightarrow> cmp x z \<le> 0"
    and "sorted_wrt (\<lambda>x y. cmp x y \<le> 0) ys"
  shows "sorted_wrt (\<lambda>x y. cmp x y \<le> 0) (insert_sorted cmp x ys)"
  using assms(3)
proof (induction ys)
  case Nil
  show ?case by simp
next
  case (Cons y ys)
  show ?case
  proof (cases "cmp x y \<le> 0")
    case True
    have "\<forall>z \<in> set ys. cmp x z \<le> 0"
    proof
      fix z
      assume "z \<in> set ys"
      then have "cmp y z \<le> 0" using Cons.prems by simp
      with True show "cmp x z \<le> 0" by (rule trans)
    qed
    then show ?thesis
      using True Cons.prems by simp
  next
    case False
    then have yx: "cmp y x \<le> 0"
      using total [of x y] by simp
    have "set (insert_sorted cmp x ys) = insert x (set ys)"
      by (induction ys) auto
    then have "\<forall>z \<in> set (insert_sorted cmp x ys). cmp y z \<le> 0"
      using yx Cons.prems by simp
    moreover have "sorted_wrt (\<lambda>x y. cmp x y \<le> 0) (insert_sorted cmp x ys)"
      using Cons.prems by (intro Cons.IH) simp
    ultimately show ?thesis
      using False by simp
  qed
qed

lemma Array_sort_sorted:
  assumes "\<And>x y. cmp x y \<le> 0 \<or> cmp y x \<le> (0 :: int)"
    and "\<And>x y z. cmp x y \<le> 0 \<Longrightarrow> cmp y z \<le> 0 \<Longrightarrow> cmp x z \<le> 0"
  shows "sorted_wrt (\<lambda>x y. cmp x y \<le> 0) (Array_sort cmp xs)"
proof (induction xs)
  case Nil
  show ?case by simp
next
  case (Cons x xs)
  have "sorted_wrt (\<lambda>x y. cmp x y \<le> 0) (insert_sorted cmp x (Array_sort cmp xs))"
    using assms Cons.IH by (rule insert_sorted_sorted)
  then show ?case by simp
qed

lemma filter_insert_sorted:
  assumes "\<And>y. cmp a x = 0 \<Longrightarrow> cmp a y = 0 \<Longrightarrow> cmp x y = (0 :: int)"
  shows "filter (\<lambda>z. cmp a z = 0) (insert_sorted cmp x ys) = filter (\<lambda>z. cmp a z = 0) (x # ys)"
proof (induction ys)
  case Nil
  show ?case by simp
next
  case (Cons y ys)
  show ?case
  proof (cases "cmp x y \<le> 0")
    case True
    then show ?thesis by simp
  next
    case False
    have n: "\<not> (cmp a x = 0 \<and> cmp a y = 0)"
    proof
      assume "cmp a x = 0 \<and> cmp a y = 0"
      then have "cmp x y = 0"
        using assms by blast
      then show False
        using False by simp
    qed
    have "insert_sorted cmp x (y # ys) = y # insert_sorted cmp x ys"
      using False by simp
    then show ?thesis
      using Cons.IH n by auto
  qed
qed

lemma filter_Array_sort:
  assumes "\<And>x y. cmp a x = 0 \<Longrightarrow> cmp a y = 0 \<Longrightarrow> cmp x y = (0 :: int)"
  shows "filter (\<lambda>z. cmp a z = 0) (Array_sort cmp xs) = filter (\<lambda>z. cmp a z = 0) xs"
proof (induction xs)
  case Nil
  show ?case by simp
next
  case (Cons x xs)
  have "filter (\<lambda>z. cmp a z = 0) (insert_sorted cmp x (Array_sort cmp xs))
      = filter (\<lambda>z. cmp a z = 0) (x # Array_sort cmp xs)"
    by (rule filter_insert_sorted) (rule assms)
  then show ?case
    using Cons.IH by simp
qed

text \<open>
  C5. The sort is stable: for every collection, sort key and direction, and every record
  \<open>a\<close>, the records that compare equal to \<open>a\<close> on the sort key stand in the projection in
  the order in which they stand in the filtered input. The locale's collation is taken
  to be one (\<open>collation\<close>).
\<close>

theorem sort_is_stable:
  assumes "collation rt"
  shows "filter (\<lambda>x. compare_uploads rt (sortKey st) (sortDirection st) a x = 0)
           (filteredAndSortedUploads rt props st)
     = filter (\<lambda>x. compare_uploads rt (sortKey st) (sortDirection st) a x = 0)
         (if filterText st = [] then uploads props
          else filter (matches (toLowerCase (filterText st))) (uploads props))"
proof -
  have "filter (\<lambda>z. compare_uploads rt (sortKey st) (sortDirection st) a z = 0)
          (Array_sort (compare_uploads rt (sortKey st) (sortDirection st)) xs)
      = filter (\<lambda>z. compare_uploads rt (sortKey st) (sortDirection st) a z = 0) xs" for xs
    by (rule filter_Array_sort) (rule compare_zero_trans [OF assms])
  then show ?thesis
    by (simp add: filteredAndSortedUploads_def Let_def)
qed

lemma code_unit_compare_zero: "code_unit_compare s t = 0 \<longleftrightarrow> s = t"
  by (induction s t rule: code_unit_compare.induct) auto

lemma digit_char_in: "d < 10 \<Longrightarrow> digit_char d \<in> set ''0123456789''"
proof -
  assume "d < 10"
  then have "d < length ''0123456789''" by simp
  then have "''0123456789'' ! d \<in> set ''0123456789''" by (rule nth_mem)
  then show ?thesis by (simp only: digit_char_def)
qed

lemma show_nat_digits: "set (show_nat n) \<subseteq> set ''0123456789''"
proof (induction n rule: show_nat.induct)
  case (1 n)
  show ?case
  proof (cases "n < 10")
    case True
    then show ?thesis
      using digit_char_in [of n] by (subst show_nat.simps) simp
  next
    case False
    have "n mod 10 < 10" by simp
    then have "digit_char (n mod 10) \<in> set ''0123456789''" by (rule digit_char_in)
    then show ?thesis
      using False "1.IH" by (subst show_nat.simps) simp
  qed
qed

lemma show_int_not_undefined: "show_int n \<noteq> ''undefined''"
proof
  assume eq: "show_int n = ''undefined''"
  show False
  proof (cases "n < 0")
    case True
    then show ?thesis using eq by (simp add: show_int_def)
  next
    case False
    then have "show_nat (nat n) = ''undefined''"
      using eq by (simp add: show_int_def)
    then have "CHR ''u'' \<in> set (show_nat (nat n))" by simp
    then have "CHR ''u'' \<in> set ''0123456789''"
      using show_nat_digits by blast
    then show False by simp
  qed
qed

lemma collation_plain: "collation plain_runtime"
  by (simp add: collation_def plain_runtime_def code_unit_compare_zero show_int_not_undefined)

lemma status_order:
  "code_unit_compare ''completed'' ''pending'' = - 1"
  "code_unit_compare ''pending'' ''completed'' = 1"
  by code_simp+

lemma status_run:
  "filteredAndSortedUploads plain_runtime three_props status_filter = [a_png, c_PNG, b_txt]"
  by (simp add: filteredAndSortedUploads_def three_props_def status_filter_def Let_def
      compare_uploads_def field_def a_png_def b_txt_def c_PNG_def plain_runtime_def status_order)

lemma equal_pair:
  "filter (\<lambda>x. compare_uploads plain_runtime ''status'' Asc a_png x = 0) [a_png, b_txt, c_PNG]
     = [a_png, c_PNG]"
  by (simp add: compare_uploads_def field_def a_png_def b_txt_def c_PNG_def plain_runtime_def
      status_order Let_def)

text \<open>
  Sorted by status, the two completed records \<open>a.png\<close> and \<open>C.PNG\<close> keep their order,
  with the pending \<open>b.txt\<close>, which stood between them, after both.
\<close>

theorem sort_is_stable_witness:
  "collation plain_runtime
   \<and> uploads three_props = [a_png, b_txt, c_PNG]
   \<and> filteredAndSortedUploads plain_runtime three_props status_filter = [a_png, c_PNG, b_txt]
   \<and> filter (\<lambda>x. compare_uploads plain_runtime ''status'' Asc a_png x = 0)
        (filteredAndSortedUploads plain_runtime three_props status_filter)
       = [a_png, c_PNG]"
  using sort_is_stable [OF collation_plain, of status_filter a_png three_props] collation_plain
    equal_pair status_run
  by (simp add: status_filter_def three_props_def)

end
